theory Spec2Isabelle
  imports Main
begin

section \<open>Grid and border model (patches.py)\<close>

text \<open>
  A cell is the Python tuple \<open>(col, row)\<close> of unbounded integers.
\<close>

type_synonym Cell = "int \<times> int"

datatype Orientation = Top | Bottom | Left | Right

datatype EdgeType = Solid | SolidStiched | Dashed | DashedStiched | AncillaJoin

datatype PauliOperator = I | X | Y | Z

datatype PatchType = Qubit | DistillationQubit | Ancilla

text \<open>
  \<open>qubit_state\<close> and \<open>logical_lattice_ops\<close> are modules outside the sources at hand.
  Of the first only the three state names used by the layout initializer are known; of the
  second only the type name of the elements of \<open>Lattice.logical_ops\<close>, a list that
  no function of the sources ever extends. Neither is inspected by any function below.
\<close>

datatype InitializeableState = Zero | Plus | Magic

datatype LogicalLatticeOperation = LogicalLatticeOperation nat

datatype error = AssertionError | ValueError | KeyError | IndexError | AttributeError

fun stitched_type :: "EdgeType \<Rightarrow> EdgeType" where
  "stitched_type Solid = SolidStiched"
| "stitched_type Dashed = DashedStiched"
| "stitched_type t = t"

fun unstitched_type :: "EdgeType \<Rightarrow> EdgeType" where
  "unstitched_type SolidStiched = Solid"
| "unstitched_type DashedStiched = Dashed"
| "unstitched_type t = t"

text \<open>The dictionary \<open>PAULI_OPERATOR_TO_EDGE_MAP\<close>: a lookup of \<open>I\<close> or \<open>Y\<close> is a KeyError.\<close>

fun PAULI_OPERATOR_TO_EDGE_MAP :: "PauliOperator \<Rightarrow> EdgeType option" where
  "PAULI_OPERATOR_TO_EDGE_MAP X = Some Dashed"
| "PAULI_OPERATOR_TO_EDGE_MAP Z = Some Solid"
| "PAULI_OPERATOR_TO_EDGE_MAP _ = None"

record Edge =
  cell :: Cell
  orientation :: Orientation
  border_type :: EdgeType

text \<open>
  \<open>Edge.getNeighbouringCell\<close> looks the orientation up in a dictionary that has all four
  of them as keys, so the \<open>Optional\<close> of its signature is never \<open>None\<close>.
\<close>

fun neighbour_of :: "Cell \<Rightarrow> Orientation \<Rightarrow> Cell" where
  "neighbour_of (col, row) Top = (col, row - 1)"
| "neighbour_of (col, row) Bottom = (col, row + 1)"
| "neighbour_of (col, row) Left = (col - 1, row)"
| "neighbour_of (col, row) Right = (col + 1, row)"

definition getNeighbouringCell :: "Edge \<Rightarrow> Cell" where
  "getNeighbouringCell e = neighbour_of (cell e) (orientation e)"

definition isStiched :: "Edge \<Rightarrow> bool" where
  "isStiched e = (border_type e \<in> set [SolidStiched, DashedStiched])"

datatype CoordType = Col | Row

record Patch =
  patch_type :: PatchType
  state :: "InitializeableState option"
  cells :: "Cell list"
  edges :: "Edge list"
  patch_uuid :: "nat option"

text \<open>\<open>self.cells[0]\<close>: an IndexError on a patch without cells.\<close>

definition getRepresentative :: "Patch \<Rightarrow> error + Cell" where
  "getRepresentative p = (case cells p of [] \<Rightarrow> Inl IndexError | c # _ \<Rightarrow> Inr c)"

fun getCoordList :: "CoordType \<Rightarrow> Patch \<Rightarrow> int list" where
  "getCoordList Col p = map fst (cells p)"
| "getCoordList Row p = map snd (cells p)"

record Lattice =
  patches :: "Patch list"
  min_rows :: int
  min_cols :: int
  logical_ops :: "LogicalLatticeOperation list"

text \<open>Python's \<open>max\<close> of an iterable: a ValueError when it is empty.\<close>

fun py_max :: "int list \<Rightarrow> error + int" where
  "py_max [] = Inl ValueError"
| "py_max (x # xs) = Inr (fold max xs x)"

definition getMaxCoord :: "Lattice \<Rightarrow> CoordType \<Rightarrow> error + int" where
  "getMaxCoord l coord_type =
     (let all_coords = concat (map (getCoordList coord_type) (patches l));
          lower_bound = (if coord_type = Row then min_rows l else min_cols l)
      in case py_max all_coords of
           Inl e \<Rightarrow> Inl e
         | Inr m \<Rightarrow> Inr (max (1 + m) lower_bound))"

definition getCols :: "Lattice \<Rightarrow> error + int" where
  "getCols l = getMaxCoord l Col"

definition getRows :: "Lattice \<Rightarrow> error + int" where
  "getRows l = getMaxCoord l Row"

definition clear :: "Lattice \<Rightarrow> Lattice" where
  "clear l = l\<lparr>patches := []\<rparr>"

text \<open>
  \<open>getPatchOfCell\<close> returns the first patch, in list order, one of whose cells is the
  target.
\<close>

definition getPatchOfCell :: "Lattice \<Rightarrow> Cell \<Rightarrow> Patch option" where
  "getPatchOfCell l target = find (\<lambda>patch. target \<in> set (cells patch)) (patches l)"

definition cellIsFree :: "Lattice \<Rightarrow> Cell \<Rightarrow> bool" where
  "cellIsFree l target = (getPatchOfCell l target = None)"

text \<open>
  \<open>maybe_patch.cells[0]\<close> is read of a patch that holds the cell, so the list is not
  empty there (lemma \<open>getPatchOfCell_cells\<close>).
\<close>

definition getPatchRepresentative :: "Lattice \<Rightarrow> Cell \<Rightarrow> Cell" where
  "getPatchRepresentative l c =
     (case getPatchOfCell l c of Some maybe_patch \<Rightarrow> hd (cells maybe_patch) | None \<Rightarrow> c)"

definition patchTypeOfCell :: "Lattice \<Rightarrow> Cell \<Rightarrow> PatchType option" where
  "patchTypeOfCell l c = map_option patch_type (getPatchOfCell l c)"

section \<open>The search graph\<close>

text \<open>
  Vertex labels are the Python strings \<open>str((col, row))\<close>. Only strings made this way
  ever reach the graph, \<open>str\<close> is injective on pairs of integers and
  \<open>ast.literal_eval\<close> (imported as \<open>make_tuple\<close>) reads the pair back, so a label is
  modelled by the pair it prints, under the constructor \<open>str\<close>.
\<close>

datatype pystr = str Cell

fun make_tuple :: "pystr \<Rightarrow> Cell" where
  "make_tuple (str c) = c"

text \<open>
  Python compares a tuple with a string by \<open>==\<close> without raising: the answer is
  \<open>False\<close> whatever their contents.
\<close>

definition py_eq_tuple_str :: "Cell \<Rightarrow> pystr \<Rightarrow> bool" where
  "py_eq_tuple_str c s = False"

text \<open>
  The graph library is not part of the sources. What the routing engine uses of it is
  modelled here: a directed graph is the list of its vertex names (a vertex's id is its
  position) and the list of its edges as pairs of ids, in order of creation. A name is
  resolved to the first vertex that carries it; an unknown name is a ValueError.
\<close>

record Graph =
  vs_name :: "pystr list"
  es :: "(nat \<times> nat) list"

definition empty_graph :: Graph where
  "empty_graph = \<lparr>vs_name = [], es = []\<rparr>"

definition add_vertex :: "Graph \<Rightarrow> pystr \<Rightarrow> Graph" where
  "add_vertex g n = g\<lparr>vs_name := vs_name g @ [n]\<rparr>"

definition add_vertices :: "Graph \<Rightarrow> pystr list \<Rightarrow> Graph" where
  "add_vertices g ns = g\<lparr>vs_name := vs_name g @ ns\<rparr>"

fun index_of :: "'a \<Rightarrow> 'a list \<Rightarrow> nat option" where
  "index_of x [] = None"
| "index_of x (y # ys) = (if x = y then Some 0 else map_option Suc (index_of x ys))"

definition add_edge :: "Graph \<Rightarrow> pystr \<Rightarrow> pystr \<Rightarrow> error + Graph" where
  "add_edge g a b =
     (case index_of a (vs_name g) of
        None \<Rightarrow> Inl ValueError
      | Some i \<Rightarrow>
          (case index_of b (vs_name g) of
             None \<Rightarrow> Inl ValueError
           | Some j \<Rightarrow> Inr (g\<lparr>es := es g @ [(i, j)]\<rparr>)))"

text \<open>A loop whose body may raise: the first error ends it.\<close>

fun fold_err :: "('a \<Rightarrow> 's \<Rightarrow> error + 's) \<Rightarrow> 'a list \<Rightarrow> 's \<Rightarrow> error + 's" where
  "fold_err f [] s = Inr s"
| "fold_err f (x # xs) s = (case f x s of Inl e \<Rightarrow> Inl e | Inr s' \<Rightarrow> fold_err f xs s')"

text \<open>\<open>range(n)\<close>: empty when \<open>n \<le> 0\<close>.\<close>

definition py_range :: "int \<Rightarrow> int list" where
  "py_range n = [0..n - 1]"

definition grid_cells :: "int \<Rightarrow> int \<Rightarrow> Cell list" where
  "grid_cells nrows ncols = concat (map (\<lambda>row. map (\<lambda>col. (col, row)) (py_range ncols)) (py_range nrows))"

definition four_neighbours :: "Cell \<Rightarrow> Cell list" where
  "four_neighbours c = (case c of (col, row) \<Rightarrow> [(col, row + 1), (col, row - 1), (col + 1, row), (col - 1, row)])"

definition make_graph_of_free_cells :: "Lattice \<Rightarrow> error + Graph" where
  "make_graph_of_free_cells l =
     (case getRows l of
        Inl e \<Rightarrow> Inl e
      | Inr nrows \<Rightarrow>
          (case getCols l of
             Inl e \<Rightarrow> Inl e
           | Inr ncols \<Rightarrow>
               (let g = fold (\<lambda>c g. if cellIsFree l c then add_vertex g (str c) else g)
                          (grid_cells nrows ncols) empty_graph
                in fold_err
                     (\<lambda>c g. fold_err
                        (\<lambda>n g. if fst n \<in> set (py_range ncols) \<and> snd n \<in> set (py_range nrows)
                                   \<and> cellIsFree l c \<and> cellIsFree l n
                                then add_edge g (str c) (str n) else Inr g)
                        (four_neighbours c) g)
                     (grid_cells nrows ncols) g)))"

text \<open>
  The body of the loop of \<open>add_directed_edges\<close> for one patch. The source compares
  \<open>patch.getRepresentative()\<close>, a tuple, with \<open>source_patch_vertex\<close>, a string, to choose
  the direction of the edge.
\<close>

definition add_directed_edges_of_patch ::
  "(Cell \<times> PauliOperator) list \<Rightarrow> pystr \<Rightarrow> pystr list \<Rightarrow> Patch \<Rightarrow> Graph \<Rightarrow> error + Graph" where
  "add_directed_edges_of_patch patch_pauli_operator_map source_patch_vertex tagret_patch_vertex patch g =
     (case getRepresentative patch of
        Inl e \<Rightarrow> Inl e
      | Inr rep \<Rightarrow>
          (let patch_representative = str rep in
           if patch_representative \<noteq> source_patch_vertex \<and> patch_representative \<notin> set tagret_patch_vertex
           then Inr g
           else
             (case map_of patch_pauli_operator_map rep of
                None \<Rightarrow> Inl KeyError
              | Some operator \<Rightarrow>
                  (case PAULI_OPERATOR_TO_EDGE_MAP operator of
                     None \<Rightarrow> Inl KeyError
                   | Some requested_edge_type \<Rightarrow>
                       fold_err
                         (\<lambda>edge g.
                            let neighbour = str (getNeighbouringCell edge) in
                            if border_type edge = requested_edge_type \<and> neighbour \<in> set (vs_name g)
                            then (if py_eq_tuple_str rep source_patch_vertex
                                  then add_edge g patch_representative neighbour
                                  else add_edge g neighbour patch_representative)
                            else Inr g)
                         (edges patch) g))))"

definition add_directed_edges ::
  "Graph \<Rightarrow> Lattice \<Rightarrow> (Cell \<times> PauliOperator) list \<Rightarrow> pystr \<Rightarrow> pystr list \<Rightarrow> error + Graph" where
  "add_directed_edges ancilla_search_graph l patch_pauli_operator_map source_patch_vertex tagret_patch_vertex =
     fold_err (add_directed_edges_of_patch patch_pauli_operator_map source_patch_vertex tagret_patch_vertex)
       (patches l) ancilla_search_graph"

subsection \<open>Shortest paths\<close>

text \<open>
  \<open>get_shortest_paths(source, targets, mode='all', output='vpath')\<close> is a breadth-first
  search from the source that, with \<open>mode='all'\<close>, follows every edge in both
  directions, and returns for each target the vertex ids of one shortest path, or the
  empty list for a target it cannot reach. Which of several shortest paths it returns is
  not part of the library's contract; the model visits the edges at a vertex in the order
  of their creation.
\<close>

fun incident_all :: "(nat \<times> nat) list \<Rightarrow> nat \<Rightarrow> nat list" where
  "incident_all [] v = []"
| "incident_all ((a, b) # rest) v =
     (if a = v then [b] else []) @ (if b = v then [a] else []) @ incident_all rest v"

definition unseen :: "Graph \<Rightarrow> nat list \<Rightarrow> nat set" where
  "unseen g seen = {w. w < length (vs_name g)} - set seen"

definition fresh_neighbours :: "Graph \<Rightarrow> nat list \<Rightarrow> nat \<Rightarrow> nat list" where
  "fresh_neighbours g seen v =
     remdups (filter (\<lambda>w. w \<notin> set seen \<and> w < length (vs_name g)) (incident_all (es g) v))"

text \<open>
  The queue holds each discovered vertex with the reversed path to its parent; the result
  lists the vertices in the order they leave the queue.
\<close>

function bfs :: "Graph \<Rightarrow> nat list \<Rightarrow> (nat \<times> nat list) list \<Rightarrow> (nat \<times> nat list) list" where
  "bfs g seen [] = []"
| "bfs g seen ((v, rp) # queue) =
     (v, rp) # bfs g (seen @ fresh_neighbours g seen v)
                 (queue @ map (\<lambda>w. (w, v # rp)) (fresh_neighbours g seen v))"
  by pat_completeness auto
termination
proof (relation "measure (\<lambda>(g, seen, queue). 2 * card (unseen g seen) + length queue)")
  show "wf (measure (\<lambda>(g, seen, queue). 2 * card (unseen g seen) + length queue))" by simp
next
  fix g seen v rp queue
  let ?new = "fresh_neighbours g seen v"
  have fin: "finite (unseen g seen)" by (simp add: unseen_def)
  have sub: "set ?new \<subseteq> unseen g seen" by (auto simp: fresh_neighbours_def unseen_def)
  have d: "distinct ?new" by (simp add: fresh_neighbours_def)
  have eq: "unseen g (seen @ ?new) = unseen g seen - set ?new" by (auto simp: unseen_def)
  have "card (unseen g seen - set ?new) = card (unseen g seen) - card (set ?new)"
    using sub fin by (simp add: card_Diff_subset)
  moreover have "card (set ?new) \<le> card (unseen g seen)" using sub fin by (simp add: card_mono)
  moreover have "card (set ?new) = length ?new" using d by (simp add: distinct_card)
  ultimately have "card (unseen g (seen @ ?new)) + length ?new = card (unseen g seen)"
    using eq by simp
  then show "((g, seen @ ?new, queue @ map (\<lambda>w. (w, v # rp)) ?new), (g, seen, (v, rp) # queue))
        \<in> measure (\<lambda>(g, seen, queue). 2 * card (unseen g seen) + length queue)"
    by simp
qed

definition path_to :: "(nat \<times> nat list) list \<Rightarrow> nat \<Rightarrow> nat list" where
  "path_to found t =
     (case find (\<lambda>(v, rp). v = t) found of None \<Rightarrow> [] | Some (v, rp) \<Rightarrow> rev (v # rp))"

fun resolve_all :: "pystr list \<Rightarrow> pystr list \<Rightarrow> nat list option" where
  "resolve_all names [] = Some []"
| "resolve_all names (t # ts) =
     (case index_of t names of
        None \<Rightarrow> None
      | Some i \<Rightarrow> map_option ((#) i) (resolve_all names ts))"

definition get_shortest_paths :: "Graph \<Rightarrow> pystr \<Rightarrow> pystr list \<Rightarrow> error + nat list list" where
  "get_shortest_paths g source targets =
     (case index_of source (vs_name g) of
        None \<Rightarrow> Inl ValueError
      | Some s \<Rightarrow>
          (case resolve_all (vs_name g) targets of
             None \<Rightarrow> Inl ValueError
           | Some ts \<Rightarrow> Inr (map (path_to (bfs g [s] [(s, [])])) ts)))"

section \<open>Ancilla routing (topological\_assembly.py)\<close>

text \<open>
  The lattice is mutated in place. The model passes it through and returns it with the
  error, if one was raised: \<open>(Some e, l')\<close> is an exception \<open>e\<close> leaving the lattice as
  \<open>l'\<close>, \<open>(None, l')\<close> a normal return. A patch object is reached through
  \<open>getPatchOfCell\<close>, so assigning to its borders updates the first patch of the list that
  holds the cell. Patches and borders are taken to be objects of their own: no border
  object belongs to two patches, as in every lattice the layout initializer builds.
\<close>

fun update_patch_of_cell :: "Cell \<Rightarrow> (Patch \<Rightarrow> Patch) \<Rightarrow> Patch list \<Rightarrow> Patch list" where
  "update_patch_of_cell target f [] = []"
| "update_patch_of_cell target f (p # ps) =
     (if target \<in> set (cells p) then f p # ps else p # update_patch_of_cell target f ps)"

text \<open>\<open>path[1]\<close> and \<open>path[-2]\<close>, \<open>None\<close> where Python raises IndexError.\<close>

definition py_index1 :: "'a list \<Rightarrow> 'a option" where
  "py_index1 path = (if 2 \<le> length path then Some (path ! 1) else None)"

definition py_index_minus2 :: "'a list \<Rightarrow> 'a option" where
  "py_index_minus2 path = (if 2 \<le> length path then Some (path ! (length path - 2)) else None)"

text \<open>
  The loop \<open>for edge in patch.edges: if edge.getNeighbouringCell() == path[k]: ...\<close>. The
  index expression is evaluated once per border, so it raises at the first border, before
  any assignment, and not at all on a patch without borders.
\<close>

fun stitch_facing :: "Edge list \<Rightarrow> Cell option \<Rightarrow> error + Edge list" where
  "stitch_facing [] _ = Inr []"
| "stitch_facing (e # rest) None = Inl IndexError"
| "stitch_facing (e # rest) (Some c) =
     Inr (map (\<lambda>edge. if getNeighbouringCell edge = c
                        then edge\<lparr>border_type := stitched_type (border_type edge)\<rparr> else edge)
              (e # rest))"

definition stitch_path :: "Lattice \<Rightarrow> Cell list \<Rightarrow> error option \<times> Lattice" where
  "stitch_path l path =
     (case path of
        [] \<Rightarrow> (Some IndexError, l)
      | c0 # _ \<Rightarrow>
          (case getPatchOfCell l c0 of
             None \<Rightarrow> (Some AttributeError, l)
           | Some source_patch \<Rightarrow>
               (case stitch_facing (edges source_patch) (py_index1 path) of
                  Inl e \<Rightarrow> (Some e, l)
                | Inr es1 \<Rightarrow>
                    (let l1 = l\<lparr>patches := update_patch_of_cell c0 (\<lambda>p. p\<lparr>edges := es1\<rparr>) (patches l)\<rparr>
                     in case getPatchOfCell l1 (last path) of
                          None \<Rightarrow> (Some AttributeError, l1)
                        | Some target_patch \<Rightarrow>
                            (case stitch_facing (edges target_patch) (py_index_minus2 path) of
                               Inl e \<Rightarrow> (Some e, l1)
                             | Inr es2 \<Rightarrow>
                                 (None, l1\<lparr>patches := update_patch_of_cell (last path)
                                                        (\<lambda>p. p\<lparr>edges := es2\<rparr>) (patches l1)\<rparr>))))))"

text \<open>
  \<open>path[1:-1]\<close>, and the union of a Python set with it. The order in which Python lists a
  set is unspecified; the model keeps the order of first insertion, and no statement below
  depends on the order.
\<close>

definition interior :: "'a list \<Rightarrow> 'a list" where
  "interior path = butlast (tl path)"

definition py_set_union :: "'a list \<Rightarrow> 'a list \<Rightarrow> 'a list" where
  "py_set_union acc xs = acc @ filter (\<lambda>x. x \<notin> set acc) (remdups xs)"

fun stitch_paths :: "Lattice \<Rightarrow> Cell list list \<Rightarrow> Cell list \<Rightarrow> error option \<times> Lattice \<times> Cell list" where
  "stitch_paths l [] all_ancilla_cells = (None, l, all_ancilla_cells)"
| "stitch_paths l (path # paths) all_ancilla_cells =
     (case stitch_path l path of
        (Some e, l') \<Rightarrow> (Some e, l', all_ancilla_cells)
      | (None, l') \<Rightarrow> stitch_paths l' paths (py_set_union all_ancilla_cells (interior path)))"

definition add_ancilla_to_lattice_from_paths :: "Lattice \<Rightarrow> Cell list list \<Rightarrow> error option \<times> Lattice" where
  "add_ancilla_to_lattice_from_paths l paths =
     (case stitch_paths l paths [] of
        (Some e, l', _) \<Rightarrow> (Some e, l')
      | (None, l', all_ancilla_cells) \<Rightarrow>
          (None, l'\<lparr>patches := patches l' @
                     [\<lparr>patch_type = Ancilla, state = None, cells = all_ancilla_cells,
                       edges = [], patch_uuid = None\<rparr>]\<rparr>))"

text \<open>
  \<open>compute_ancilla_cells\<close> up to the call of \<open>add_directed_edges\<close>: the assertion on the
  keys, the graph of free cells, the vertices of the active patches and the edges at
  their borders. The operator map is a dictionary, modelled by the list of its items in
  iteration order.
\<close>

definition ancilla_search_graph :: "Lattice \<Rightarrow> (Cell \<times> PauliOperator) list \<Rightarrow> error + Graph" where
  "ancilla_search_graph l patch_pauli_operator_map =
     (if \<not> list_all (\<lambda>c. getPatchRepresentative l c = c) (map fst patch_pauli_operator_map)
      then Inl AssertionError
      else
        (case make_graph_of_free_cells l of
           Inl e \<Rightarrow> Inl e
         | Inr g0 \<Rightarrow>
             (let active_qubits = map (\<lambda>k. str k) (map fst patch_pauli_operator_map);
                  g = add_vertices g0 active_qubits
              in case active_qubits of
                   [] \<Rightarrow> Inl IndexError
                 | source_qubit # target_qubits \<Rightarrow>
                     add_directed_edges g l patch_pauli_operator_map source_qubit target_qubits)))"

definition compute_ancilla_cells :: "Lattice \<Rightarrow> (Cell \<times> PauliOperator) list \<Rightarrow> error option \<times> Lattice" where
  "compute_ancilla_cells l patch_pauli_operator_map =
     (case ancilla_search_graph l patch_pauli_operator_map of
        Inl e \<Rightarrow> (Some e, l)
      | Inr g \<Rightarrow>
          (let active_qubits = map (\<lambda>k. str k) (map fst patch_pauli_operator_map)
           in case get_shortest_paths g (hd active_qubits) (tl active_qubits) of
                Inl e \<Rightarrow> (Some e, l)
              | Inr shortest_paths_raw \<Rightarrow>
                  add_ancilla_to_lattice_from_paths l
                    (map (map (\<lambda>v_idx. make_tuple (vs_name g ! v_idx))) shortest_paths_raw)))"

section \<open>Layout initializer and time-slice composer\<close>

definition singleSquarePatch :: "Cell \<Rightarrow> PatchType \<Rightarrow> InitializeableState \<Rightarrow> Patch" where
  "singleSquarePatch c ptype patch_state =
     \<lparr>patch_type = ptype, state = Some patch_state, cells = [c],
      edges = [\<lparr>cell = c, orientation = Top, border_type = Solid\<rparr>,
               \<lparr>cell = c, orientation = Bottom, border_type = Solid\<rparr>,
               \<lparr>cell = c, orientation = Left, border_type = Dashed\<rparr>,
               \<lparr>cell = c, orientation = Right, border_type = Dashed\<rparr>],
      patch_uuid = None\<rparr>"

text \<open>
  The composer holds a Python list of references to lattice objects, and two of its
  entries may be the same object. The model keeps the lattice objects in a store, an
  object's address being its position there, and the history as the list of addresses.
  \<open>copy.deepcopy\<close> allocates a new object with the contents of the old one; every
  mutation writes the object at the last address of the history.
\<close>

record TopologicalAssemblyComposer =
  store :: "Lattice list"
  qubit_patch_slices :: "nat list"

definition new_composer :: "Lattice \<Rightarrow> TopologicalAssemblyComposer" where
  "new_composer initial_layout = \<lparr>store = [initial_layout], qubit_patch_slices = [0]\<rparr>"

text \<open>\<open>getSlices\<close>: the lattices a caller finds behind the references of the history.\<close>

definition getSlices :: "TopologicalAssemblyComposer \<Rightarrow> Lattice list" where
  "getSlices c = map (\<lambda>a. store c ! a) (qubit_patch_slices c)"

text \<open>\<open>self.qubit_patch_slices[-1]\<close> is an IndexError on an empty history.\<close>

definition initQubit :: "TopologicalAssemblyComposer \<Rightarrow> error option \<times> TopologicalAssemblyComposer" where
  "initQubit c =
     (if qubit_patch_slices c = [] then (Some IndexError, c)
      else (None, c\<lparr>qubit_patch_slices := qubit_patch_slices c @ [last (qubit_patch_slices c)]\<rparr>))"

definition newTimeSlice :: "TopologicalAssemblyComposer \<Rightarrow> error option \<times> TopologicalAssemblyComposer" where
  "newTimeSlice c =
     (if qubit_patch_slices c = [] then (Some IndexError, c)
      else (None, c\<lparr>store := store c @ [store c ! last (qubit_patch_slices c)],
                     qubit_patch_slices := qubit_patch_slices c @ [length (store c)]\<rparr>))"

definition measureMultiPatch ::
  "(Cell \<times> PauliOperator) list \<Rightarrow> TopologicalAssemblyComposer \<Rightarrow> error option \<times> TopologicalAssemblyComposer" where
  "measureMultiPatch patch_pauli_operator_map c =
     (if qubit_patch_slices c = [] then (Some IndexError, c)
      else
        (let a = last (qubit_patch_slices c);
             r = compute_ancilla_cells (store c ! a) patch_pauli_operator_map
         in (fst r, c\<lparr>store := (store c)[a := snd r]\<rparr>)))"

definition unstitch_patch :: "Patch \<Rightarrow> Patch" where
  "unstitch_patch patch =
     patch\<lparr>edges := map (\<lambda>edge. edge\<lparr>border_type := unstitched_type (border_type edge)\<rparr>) (edges patch)\<rparr>"

definition clear_ancilla_of :: "Lattice \<Rightarrow> Lattice" where
  "clear_ancilla_of l =
     l\<lparr>patches := filter (\<lambda>patch. patch_type patch \<noteq> Ancilla) (map unstitch_patch (patches l))\<rparr>"

definition clearAncilla :: "TopologicalAssemblyComposer \<Rightarrow> error option \<times> TopologicalAssemblyComposer" where
  "clearAncilla c =
     (if qubit_patch_slices c = [] then (Some IndexError, c)
      else
        (let a = last (qubit_patch_slices c)
         in (None, c\<lparr>store := (store c)[a := clear_ancilla_of (store c ! a)]\<rparr>)))"

definition clearLattice :: "TopologicalAssemblyComposer \<Rightarrow> error option \<times> TopologicalAssemblyComposer" where
  "clearLattice c =
     (if qubit_patch_slices c = [] then (Some IndexError, c)
      else
        (let a = last (qubit_patch_slices c)
         in (None, c\<lparr>store := (store c)[a := clear (store c ! a)]\<rparr>)))"

text \<open>
  A composer built by \<open>new_composer\<close> and driven through its methods keeps a history
  that is not empty and whose addresses are all allocated.
\<close>

definition composer_ok :: "TopologicalAssemblyComposer \<Rightarrow> bool" where
  "composer_ok c =
     (qubit_patch_slices c \<noteq> [] \<and> list_all (\<lambda>a. a < length (store c)) (qubit_patch_slices c))"

text \<open>The operations that mutate the latest snapshot.\<close>

datatype mutation = MeasureMultiPatch "(Cell \<times> PauliOperator) list" | ClearAncilla | ClearLattice

fun mutate :: "mutation \<Rightarrow> TopologicalAssemblyComposer \<Rightarrow> error option \<times> TopologicalAssemblyComposer" where
  "mutate (MeasureMultiPatch m) c = measureMultiPatch m c"
| "mutate ClearAncilla c = clearAncilla c"
| "mutate ClearLattice c = clearLattice c"

text \<open>
  A sequence of mutations; a caller may catch an exception and go on, so the state is
  threaded through whether or not a call raised.
\<close>

fun mutate_all :: "mutation list \<Rightarrow> TopologicalAssemblyComposer \<Rightarrow> TopologicalAssemblyComposer" where
  "mutate_all [] c = c"
| "mutate_all (m # ms) c = mutate_all ms (snd (mutate m c))"

section \<open>Notions the statements use\<close>

text \<open>
  \<open>connected E s t\<close>: there is a path from \<open>s\<close> to \<open>t\<close> along edges of \<open>E\<close>, each
  taken in either direction, as the search with \<open>mode='all'\<close> follows them.
\<close>

inductive connected :: "(nat \<times> nat) list \<Rightarrow> nat \<Rightarrow> nat \<Rightarrow> bool"
  for E :: "(nat \<times> nat) list" and s :: nat where
  here: "connected E s s"
| step: "connected E s v \<Longrightarrow> (v, w) \<in> set E \<or> (w, v) \<in> set E \<Longrightarrow> connected E s w"

text \<open>
  What a call that raised may have done to the lattice: \<open>lattice_stitched_from l l'\<close>
  says that \<open>l'\<close> is \<open>l\<close> except that some borders have been given their stitched type.
  The patches are the same in number, kind, state, cells and identity, and each border
  keeps its cell and orientation.
\<close>

definition stitched_from :: "Edge \<Rightarrow> Edge \<Rightarrow> bool" where
  "stitched_from e e' =
     (cell e' = cell e \<and> orientation e' = orientation e
      \<and> (border_type e' = border_type e \<or> border_type e' = stitched_type (border_type e)))"

definition patch_stitched_from :: "Patch \<Rightarrow> Patch \<Rightarrow> bool" where
  "patch_stitched_from p p' =
     (patch_type p' = patch_type p \<and> state p' = state p \<and> cells p' = cells p
      \<and> patch_uuid p' = patch_uuid p \<and> list_all2 stitched_from (edges p) (edges p'))"

definition lattice_stitched_from :: "Lattice \<Rightarrow> Lattice \<Rightarrow> bool" where
  "lattice_stitched_from l l' =
     (min_rows l' = min_rows l \<and> min_cols l' = min_cols l \<and> logical_ops l' = logical_ops l
      \<and> list_all2 patch_stitched_from (patches l) (patches l'))"

section \<open>Example lattices\<close>

definition one_patch_lattice :: Lattice where
  "one_patch_lattice =
     \<lparr>patches = [singleSquarePatch (0, 0) Qubit Zero], min_rows = 0, min_cols = 0, logical_ops = []\<rparr>"

text \<open>A patch of two cells, whose representative is \<open>(0, 0)\<close>.\<close>

definition two_cell_lattice :: Lattice where
  "two_cell_lattice =
     \<lparr>patches = [\<lparr>patch_type = Qubit, state = Some Zero, cells = [(0, 0), (0, 1)],
                  edges = [\<lparr>cell = (0, 0), orientation = Top, border_type = Solid\<rparr>],
                  patch_uuid = None\<rparr>],
      min_rows = 0, min_cols = 0, logical_ops = []\<rparr>"

text \<open>
  \<open>one_patch_lattice\<close> with its right border stitched to an ancilla patch beside it.
\<close>

definition stitched_lattice :: Lattice where
  "stitched_lattice =
     \<lparr>patches =
        [\<lparr>patch_type = Qubit, state = Some Zero, cells = [(0, 0)],
          edges = [\<lparr>cell = (0, 0), orientation = Top, border_type = Solid\<rparr>,
                   \<lparr>cell = (0, 0), orientation = Bottom, border_type = Solid\<rparr>,
                   \<lparr>cell = (0, 0), orientation = Left, border_type = Dashed\<rparr>,
                   \<lparr>cell = (0, 0), orientation = Right, border_type = DashedStiched\<rparr>],
          patch_uuid = None\<rparr>,
         \<lparr>patch_type = Ancilla, state = None, cells = [(1, 0)], edges = [], patch_uuid = None\<rparr>],
      min_rows = 0, min_cols = 0, logical_ops = []\<rparr>"

text \<open>
  Three single-cell patches on row 0 at columns 0, 2 and 4, on a grid of one row; two
  single-cell patches side by side; and the layout of the end-to-end scenario: patches
  at columns 0, 4 and 6 of row 0, with a minimum of two rows.
\<close>

definition row_0_2_4 :: Lattice where
  "row_0_2_4 =
     \<lparr>patches = [singleSquarePatch (0, 0) Qubit Zero, singleSquarePatch (2, 0) Qubit Zero,
                 singleSquarePatch (4, 0) Qubit Zero],
      min_rows = 0, min_cols = 0, logical_ops = []\<rparr>"

definition adjacent_pair :: Lattice where
  "adjacent_pair =
     \<lparr>patches = [singleSquarePatch (0, 0) Qubit Zero, singleSquarePatch (1, 0) Qubit Zero],
      min_rows = 0, min_cols = 0, logical_ops = []\<rparr>"

definition scenario_A :: Lattice where
  "scenario_A =
     \<lparr>patches = [singleSquarePatch (0, 0) Qubit Zero, singleSquarePatch (4, 0) Qubit Zero,
                 singleSquarePatch (6, 0) Qubit Zero],
      min_rows = 2, min_cols = 0, logical_ops = []\<rparr>"

text \<open>The borders of a square patch at \<open>c\<close>, by type: top, bottom, left, right.\<close>

definition square_borders :: "Cell \<Rightarrow> EdgeType \<Rightarrow> EdgeType \<Rightarrow> EdgeType \<Rightarrow> EdgeType \<Rightarrow> Edge list" where
  "square_borders c t b l r =
     [\<lparr>cell = c, orientation = Top, border_type = t\<rparr>,
      \<lparr>cell = c, orientation = Bottom, border_type = b\<rparr>,
      \<lparr>cell = c, orientation = Left, border_type = l\<rparr>,
      \<lparr>cell = c, orientation = Right, border_type = r\<rparr>]"

text \<open>The equations of \<open>bfs\<close> are applied by hand below.\<close>

declare bfs.simps [simp del]

section \<open>Lattice dimensions\<close>

lemma py_max_Cons: "py_max (x # xs) = Inr (Max (set (x # xs)))"
  using Max.set_eq_fold[of x xs] by simp

lemma py_max_Max:
  assumes "xs \<noteq> []"
  shows "py_max xs = Inr (Max (set xs))"
proof (cases xs)
  case Nil
  with assms show ?thesis by simp
next
  case (Cons a list)
  then show ?thesis by (simp only: py_max_Cons)
qed

lemma coords_of_cells:
  "concat (map (getCoordList Row) ps) = map snd (concat (map cells ps))"
  "concat (map (getCoordList Col) ps) = map fst (concat (map cells ps))"
  by (induction ps) simp_all

lemma getMaxCoord_nonempty:
  assumes "concat (map cells (patches l)) \<noteq> []"
  shows "getRows l = Inr (max (1 + Max (snd ` set (concat (map cells (patches l))))) (min_rows l))"
    and "getCols l = Inr (max (1 + Max (fst ` set (concat (map cells (patches l))))) (min_cols l))"
  using assms by (simp_all add: getRows_def getCols_def getMaxCoord_def coords_of_cells py_max_Max)

lemma getMaxCoord_empty:
  assumes "concat (map cells (patches l)) = []"
  shows "getRows l = Inl ValueError" "getCols l = Inl ValueError"
proof -
  have "py_max (map snd (concat (map cells (patches l)))) = Inl ValueError"
       "py_max (map fst (concat (map cells (patches l)))) = Inl ValueError"
    by (simp_all only: assms list.map py_max.simps)
  then show "getRows l = Inl ValueError" "getCols l = Inl ValueError"
    by (simp_all only: getRows_def getCols_def getMaxCoord_def coords_of_cells Let_def sum.case)
qed

text \<open>
  Claim C9, as stated, fails. On the lattice of one single-cell patch at \<open>(0, 0)\<close> with
  both minima 0, the maximum row and column coordinates floored at the minima are 0, but
  \<open>getRows\<close> and \<open>getCols\<close> return 1; and on the lattice left by \<open>clear\<close> the call
  raises ValueError instead of returning.
\<close>

theorem getRows_is_not_max_coordinate:
  "getRows one_patch_lattice = Inr 1 \<and> getCols one_patch_lattice = Inr 1
   \<and> max (Max (snd ` set (concat (map cells (patches one_patch_lattice))))) (min_rows one_patch_lattice) = 0
   \<and> max (Max (fst ` set (concat (map cells (patches one_patch_lattice))))) (min_cols one_patch_lattice) = 0
   \<and> getRows (clear one_patch_lattice) = Inl ValueError
   \<and> getCols (clear one_patch_lattice) = Inl ValueError"
  by (simp add: one_patch_lattice_def singleSquarePatch_def getRows_def getCols_def
        getMaxCoord_def clear_def)

text \<open>
  Claim C9, amended: for every lattice that has at least one patch cell, \<open>getRows\<close>
  returns one more than the maximum row coordinate over all cells of all patches, floored
  at the declared minimum row count, and \<open>getCols\<close> returns one more than the maximum
  column coordinate, floored at the declared minimum column count.
\<close>

theorem getRows_getCols_one_past_max:
  assumes "concat (map cells (patches l)) \<noteq> []"
  shows "getRows l = Inr (max (1 + Max (snd ` set (concat (map cells (patches l))))) (min_rows l))
       \<and> getCols l = Inr (max (1 + Max (fst ` set (concat (map cells (patches l))))) (min_cols l))"
  using getMaxCoord_nonempty[OF assms] by simp

theorem getRows_getCols_one_past_max_witness:
  "concat (map cells (patches two_cell_lattice)) \<noteq> []
   \<and> getRows two_cell_lattice = Inr 2 \<and> getCols two_cell_lattice = Inr 1"
proof -
  have ne: "concat (map cells (patches two_cell_lattice)) \<noteq> []"
    by (simp add: two_cell_lattice_def)
  show ?thesis
    using getRows_getCols_one_past_max[OF ne] ne by (simp add: two_cell_lattice_def)
qed

section \<open>The assertion on the keys of the operator map\<close>

lemma getPatchOfCell_cells:
  "getPatchOfCell l c = Some p \<Longrightarrow> c \<in> set (cells p) \<and> p \<in> set (patches l)"
  unfolding getPatchOfCell_def by (auto simp: find_Some_iff)

lemma assertion_fails:
  assumes "k \<in> set (map fst m)" and "getPatchRepresentative l k \<noteq> k"
  shows "ancilla_search_graph l m = Inl AssertionError"
proof -
  have "\<not> list_all (\<lambda>c. getPatchRepresentative l c = c) (map fst m)"
    using assms by (auto simp: list_all_iff)
  then show ?thesis by (simp add: ancilla_search_graph_def)
qed

text \<open>
  Claim C6: when some key \<open>k\<close> of the operator map is not its own patch representative,
  \<open>compute_ancilla_cells\<close> raises the AssertionError of its first statement: no search
  graph is built and the lattice is returned as it was. Through \<open>measureMultiPatch\<close> the
  composer is left as it was, too.
\<close>

theorem non_representative_key_rejected:
  assumes "k \<in> set (map fst m)" and "getPatchRepresentative l k \<noteq> k"
  shows "ancilla_search_graph l m = Inl AssertionError
       \<and> compute_ancilla_cells l m = (Some AssertionError, l)
       \<and> (\<forall>c. composer_ok c \<and> store c ! last (qubit_patch_slices c) = l
              \<longrightarrow> measureMultiPatch m c = (Some AssertionError, c))"
proof -
  have g: "ancilla_search_graph l m = Inl AssertionError" using assms by (rule assertion_fails)
  then have r: "compute_ancilla_cells l m = (Some AssertionError, l)"
    by (simp add: compute_ancilla_cells_def)
  have "measureMultiPatch m c = (Some AssertionError, c)"
    if "composer_ok c" "store c ! last (qubit_patch_slices c) = l" for c
  proof -
    have "(store c)[last (qubit_patch_slices c) := l] = store c"
      using that(2) by (metis list_update_id)
    then show ?thesis using that r by (simp add: measureMultiPatch_def composer_ok_def Let_def)
  qed
  with g r show ?thesis by blast
qed

theorem non_representative_key_rejected_witness:
  "((0, 1) :: Cell) \<in> set (map fst [((0, 1), X)])
   \<and> getPatchRepresentative two_cell_lattice (0, 1) = (0, 0)
   \<and> compute_ancilla_cells two_cell_lattice [((0, 1), X)] = (Some AssertionError, two_cell_lattice)
   \<and> measureMultiPatch [((0, 1), X)] (new_composer two_cell_lattice)
       = (Some AssertionError, new_composer two_cell_lattice)"
proof -
  have k: "(0, 1) \<in> set (map fst [((0::int, 1::int), X)])" by simp
  have r: "getPatchRepresentative two_cell_lattice (0, 1) = (0, 0)"
    by (simp add: getPatchRepresentative_def getPatchOfCell_def two_cell_lattice_def)
  then have n: "getPatchRepresentative two_cell_lattice (0, 1) \<noteq> (0, 1)" by simp
  have ok: "composer_ok (new_composer two_cell_lattice)
            \<and> store (new_composer two_cell_lattice)
                ! last (qubit_patch_slices (new_composer two_cell_lattice)) = two_cell_lattice"
    by (simp add: composer_ok_def new_composer_def)
  show ?thesis using non_representative_key_rejected[OF k n] ok r k by simp
qed

section \<open>The time-slice composer\<close>

lemma unstitched_type_idem: "unstitched_type (unstitched_type t) = unstitched_type t"
  by (cases t) simp_all

lemma unstitched_type_not_stitched:
  "unstitched_type t \<noteq> SolidStiched \<and> unstitched_type t \<noteq> DashedStiched"
  by (cases t) simp_all

lemma unstitch_patch_idem: "unstitch_patch (unstitch_patch p) = unstitch_patch p"
  by (simp add: unstitch_patch_def unstitched_type_idem)

lemma unstitch_patch_type: "patch_type (unstitch_patch p) = patch_type p"
  by (simp add: unstitch_patch_def)

lemma clear_ancilla_of_idem: "clear_ancilla_of (clear_ancilla_of l) = clear_ancilla_of l"
proof -
  have "filter (\<lambda>p. patch_type p \<noteq> Ancilla)
          (map unstitch_patch (filter (\<lambda>p. patch_type p \<noteq> Ancilla) (map unstitch_patch ps)))
        = filter (\<lambda>p. patch_type p \<noteq> Ancilla) (map unstitch_patch ps)" for ps
    by (induction ps) (simp_all add: unstitch_patch_idem unstitch_patch_type)
  then show ?thesis by (simp add: clear_ancilla_of_def)
qed

lemma clear_ancilla_of_complete:
  "list_all (\<lambda>p. patch_type p \<noteq> Ancilla
                \<and> list_all (\<lambda>e. border_type e \<noteq> SolidStiched \<and> border_type e \<noteq> DashedStiched) (edges p))
     (patches (clear_ancilla_of l))"
  by (auto simp: clear_ancilla_of_def list_all_iff unstitch_patch_def unstitched_type_not_stitched)

lemma last_getSlices:
  "qubit_patch_slices c \<noteq> [] \<Longrightarrow> last (getSlices c) = store c ! last (qubit_patch_slices c)"
  by (simp add: getSlices_def last_map)

text \<open>
  Claim C8: on a composer with a history, a second \<open>clearAncilla\<close> changes nothing
  (the whole composer, and so its last snapshot, is as after the first call), the call does
  not raise, and after one call the last snapshot has no patch of kind Ancilla and no
  border of type SolidStiched or DashedStiched.
\<close>

theorem clearAncilla_idempotent_and_complete:
  assumes "composer_ok c"
  shows "fst (clearAncilla c) = None
       \<and> snd (clearAncilla (snd (clearAncilla c))) = snd (clearAncilla c)
       \<and> last (getSlices (snd (clearAncilla (snd (clearAncilla c))))) = last (getSlices (snd (clearAncilla c)))
       \<and> list_all (\<lambda>p. patch_type p \<noteq> Ancilla
                      \<and> list_all (\<lambda>e. border_type e \<noteq> SolidStiched \<and> border_type e \<noteq> DashedStiched) (edges p))
           (patches (last (getSlices (snd (clearAncilla c)))))"
proof -
  let ?a = "last (qubit_patch_slices c)"
  have ne: "qubit_patch_slices c \<noteq> []" and lt: "?a < length (store c)"
    using assms by (auto simp: composer_ok_def list_all_iff)
  have c1: "snd (clearAncilla c) = c\<lparr>store := (store c)[?a := clear_ancilla_of (store c ! ?a)]\<rparr>"
    using ne by (simp add: clearAncilla_def Let_def)
  have e: "fst (clearAncilla c) = None" using ne by (simp add: clearAncilla_def Let_def)
  have idem: "snd (clearAncilla (snd (clearAncilla c))) = snd (clearAncilla c)"
    using ne lt by (simp add: c1 clearAncilla_def Let_def clear_ancilla_of_idem)
  have lastc: "last (getSlices (snd (clearAncilla c))) = clear_ancilla_of (store c ! ?a)"
    using ne lt by (simp add: c1 getSlices_def last_map)
  show ?thesis using e idem lastc clear_ancilla_of_complete by simp
qed

theorem clearAncilla_idempotent_and_complete_witness:
  "composer_ok (new_composer stitched_lattice)
   \<and> snd (clearAncilla (snd (clearAncilla (new_composer stitched_lattice))))
       = snd (clearAncilla (new_composer stitched_lattice))
   \<and> getSlices (snd (clearAncilla (new_composer stitched_lattice))) = [one_patch_lattice]"
proof -
  have ok: "composer_ok (new_composer stitched_lattice)"
    by (simp add: composer_ok_def new_composer_def)
  have "getSlices (snd (clearAncilla (new_composer stitched_lattice))) = [one_patch_lattice]"
    by (simp add: clearAncilla_def new_composer_def getSlices_def clear_ancilla_of_def
          stitched_lattice_def one_patch_lattice_def singleSquarePatch_def unstitch_patch_def)
  then show ?thesis using clearAncilla_idempotent_and_complete[OF ok] ok by simp
qed

lemma mutate_frame:
  "qubit_patch_slices (snd (mutate m c)) = qubit_patch_slices c
   \<and> length (store (snd (mutate m c))) = length (store c)
   \<and> (\<forall>a. a \<noteq> last (qubit_patch_slices c) \<longrightarrow> store (snd (mutate m c)) ! a = store c ! a)"
  by (cases m) (simp_all add: measureMultiPatch_def clearAncilla_def clearLattice_def Let_def)

lemma mutate_all_frame:
  "qubit_patch_slices (mutate_all ms c) = qubit_patch_slices c
   \<and> length (store (mutate_all ms c)) = length (store c)
   \<and> (\<forall>a. a \<noteq> last (qubit_patch_slices c) \<longrightarrow> store (mutate_all ms c) ! a = store c ! a)"
proof (induction ms arbitrary: c)
  case Nil
  show ?case by simp
next
  case (Cons m ms)
  show ?case using Cons.IH[of "snd (mutate m c)"] mutate_frame[of m c] by simp
qed

text \<open>
  Claim C5: on a composer with a history of length \<open>n\<close>, \<open>newTimeSlice\<close> appends a
  snapshot equal to the last one, held in a newly allocated object that no earlier entry of
  the history refers to, and leaves the earlier snapshots as they were; after any sequence
  of \<open>measureMultiPatch\<close>, \<open>clearAncilla\<close> and \<open>clearLattice\<close> calls, raising
  or not, the first \<open>n\<close> snapshots are still what they were before \<open>newTimeSlice\<close>.
\<close>

theorem newTimeSlice_isolates_earlier_snapshots:
  assumes "composer_ok c"
  shows "fst (newTimeSlice c) = None
       \<and> getSlices (snd (newTimeSlice c)) = getSlices c @ [last (getSlices c)]
       \<and> last (qubit_patch_slices (snd (newTimeSlice c))) \<notin> set (qubit_patch_slices c)
       \<and> (\<forall>ms. take (length (getSlices c)) (getSlices (mutate_all ms (snd (newTimeSlice c)))) = getSlices c)"
proof -
  let ?sl = "qubit_patch_slices c" and ?st = "store c"
  let ?n = "length ?st"
  let ?c1 = "snd (newTimeSlice c)"
  have ne: "?sl \<noteq> []" and lt: "\<forall>a \<in> set ?sl. a < ?n"
    using assms by (auto simp: composer_ok_def list_all_iff)
  have e: "fst (newTimeSlice c) = None" using ne by (simp add: newTimeSlice_def)
  have sl1: "qubit_patch_slices ?c1 = ?sl @ [?n]" using ne by (simp add: newTimeSlice_def)
  have st1: "store ?c1 = ?st @ [?st ! last ?sl]" using ne by (simp add: newTimeSlice_def)
  have old: "map (\<lambda>a. (?st @ [?st ! last ?sl]) ! a) ?sl = map (\<lambda>a. ?st ! a) ?sl"
    using lt by (simp add: nth_append)
  have gs: "getSlices ?c1 = getSlices c @ [last (getSlices c)]"
    using ne old by (simp add: getSlices_def sl1 st1 last_map)
  have fresh: "last (qubit_patch_slices ?c1) \<notin> set ?sl" using lt by (auto simp: sl1)
  have iso: "take (length (getSlices c)) (getSlices (mutate_all ms ?c1)) = getSlices c" for ms
  proof -
    let ?c2 = "mutate_all ms ?c1"
    have f: "qubit_patch_slices ?c2 = ?sl @ [?n]"
       "\<forall>a. a \<noteq> ?n \<longrightarrow> store ?c2 ! a = store ?c1 ! a"
      using mutate_all_frame[of ms ?c1] by (simp_all add: sl1)
    have "map (\<lambda>a. store ?c2 ! a) ?sl = map (\<lambda>a. ?st ! a) ?sl"
    proof (rule map_cong[OF refl])
      fix a assume "a \<in> set ?sl"
      then have "a < ?n" using lt by blast
      then show "store ?c2 ! a = ?st ! a" using f(2) by (simp add: st1 nth_append)
    qed
    then show ?thesis by (simp add: getSlices_def f(1))
  qed
  show ?thesis using e gs fresh iso by blast
qed

theorem newTimeSlice_isolates_earlier_snapshots_witness:
  "composer_ok (new_composer one_patch_lattice)
   \<and> getSlices (snd (newTimeSlice (new_composer one_patch_lattice)))
       = [one_patch_lattice, one_patch_lattice]
   \<and> take 1 (getSlices (mutate_all [MeasureMultiPatch [((0, 0), X)], ClearAncilla, ClearLattice]
                 (snd (newTimeSlice (new_composer one_patch_lattice))))) = [one_patch_lattice]
   \<and> getSlices (mutate_all [ClearLattice] (snd (newTimeSlice (new_composer one_patch_lattice))))
       = [one_patch_lattice, clear one_patch_lattice]"
proof -
  have ok: "composer_ok (new_composer one_patch_lattice)"
    by (simp add: composer_ok_def new_composer_def)
  have gs: "getSlices (new_composer one_patch_lattice) = [one_patch_lattice]"
    by (simp add: getSlices_def new_composer_def)
  have "getSlices (mutate_all [ClearLattice] (snd (newTimeSlice (new_composer one_patch_lattice))))
       = [one_patch_lattice, clear one_patch_lattice]"
    by (simp add: getSlices_def new_composer_def newTimeSlice_def clearLattice_def)
  moreover have "take (length (getSlices (new_composer one_patch_lattice)))
       (getSlices (mutate_all [MeasureMultiPatch [((0, 0), X)], ClearAncilla, ClearLattice]
                 (snd (newTimeSlice (new_composer one_patch_lattice)))))
       = getSlices (new_composer one_patch_lattice)"
    using newTimeSlice_isolates_earlier_snapshots[OF ok] by blast
  moreover have "getSlices (snd (newTimeSlice (new_composer one_patch_lattice)))
       = getSlices (new_composer one_patch_lattice) @ [last (getSlices (new_composer one_patch_lattice))]"
    using newTimeSlice_isolates_earlier_snapshots[OF ok] by blast
  ultimately show ?thesis using ok gs by simp
qed

text \<open>
  Claim C10: \<open>initQubit\<close> appends the reference to the last snapshot itself and
  allocates nothing. After it, and after any sequence of mutations, the last two elements
  of \<open>getSlices\<close> are equal; and a \<open>clearLattice\<close> empties the previous snapshot as
  well, so a previous snapshot that had patches is no longer what it was.
\<close>

theorem initQubit_aliases_last_snapshot:
  assumes "composer_ok c"
  shows "fst (initQubit c) = None
       \<and> qubit_patch_slices (snd (initQubit c)) = qubit_patch_slices c @ [last (qubit_patch_slices c)]
       \<and> store (snd (initQubit c)) = store c
       \<and> (\<forall>ms. length (getSlices (mutate_all ms (snd (initQubit c)))) = length (getSlices c) + 1
              \<and> getSlices (mutate_all ms (snd (initQubit c))) ! length (getSlices c)
                = getSlices (mutate_all ms (snd (initQubit c))) ! (length (getSlices c) - 1))
       \<and> patches (getSlices (snd (clearLattice (snd (initQubit c)))) ! (length (getSlices c) - 1)) = []
       \<and> (patches (last (getSlices c)) = []
            \<or> getSlices (snd (clearLattice (snd (initQubit c)))) ! (length (getSlices c) - 1)
                \<noteq> getSlices c ! (length (getSlices c) - 1))"
proof -
  let ?sl = "qubit_patch_slices c"
  let ?c1 = "snd (initQubit c)"
  let ?n = "length ?sl"
  have ne: "?sl \<noteq> []" and lt: "last ?sl < length (store c)"
    using assms by (auto simp: composer_ok_def list_all_iff)
  have e: "fst (initQubit c) = None" using ne by (simp add: initQubit_def)
  have sl1: "qubit_patch_slices ?c1 = ?sl @ [last ?sl]" using ne by (simp add: initQubit_def)
  have st1: "store ?c1 = store c" using ne by (simp add: initQubit_def)
  have pos: "0 < ?n" using ne by simp
  have nth_prev: "(?sl @ [last ?sl]) ! (?n - 1) = last ?sl"
    using ne pos by (simp add: nth_append last_conv_nth)
  have same: "length (getSlices (mutate_all ms ?c1)) = length (getSlices c) + 1
              \<and> getSlices (mutate_all ms ?c1) ! length (getSlices c)
                = getSlices (mutate_all ms ?c1) ! (length (getSlices c) - 1)" for ms
  proof -
    have f: "qubit_patch_slices (mutate_all ms ?c1) = ?sl @ [last ?sl]"
      using mutate_all_frame[of ms ?c1] by (simp add: sl1)
    have l: "length (getSlices c) = ?n" by (simp add: getSlices_def)
    show ?thesis using pos nth_prev by (simp add: getSlices_def f l nth_append)
  qed
  have cl: "patches (getSlices (snd (clearLattice ?c1)) ! (length (getSlices c) - 1)) = []"
  proof -
    have l: "length (getSlices c) = ?n" by (simp add: getSlices_def)
    have "snd (clearLattice ?c1) = ?c1\<lparr>store := (store c)[last ?sl := clear (store c ! last ?sl)]\<rparr>"
      by (simp add: clearLattice_def sl1 st1 Let_def)
    then show ?thesis using pos nth_prev lt
      by (simp add: getSlices_def sl1 l nth_append clear_def)
  qed
  have prev: "getSlices c ! (length (getSlices c) - 1) = last (getSlices c)"
    using ne by (simp add: getSlices_def last_conv_nth)
  have changed: "patches (last (getSlices c)) = []
            \<or> getSlices (snd (clearLattice ?c1)) ! (length (getSlices c) - 1)
                \<noteq> getSlices c ! (length (getSlices c) - 1)"
    using cl prev by force
  show ?thesis using e sl1 st1 same cl changed by blast
qed

theorem initQubit_aliases_last_snapshot_witness:
  "composer_ok (new_composer one_patch_lattice)
   \<and> qubit_patch_slices (snd (initQubit (new_composer one_patch_lattice))) = [0, 0]
   \<and> getSlices (new_composer one_patch_lattice) = [one_patch_lattice]
   \<and> getSlices (snd (clearLattice (snd (initQubit (new_composer one_patch_lattice)))))
       = [clear one_patch_lattice, clear one_patch_lattice]
   \<and> clear one_patch_lattice \<noteq> one_patch_lattice"
proof -
  have ok: "composer_ok (new_composer one_patch_lattice)"
    by (simp add: composer_ok_def new_composer_def)
  have sl: "qubit_patch_slices (new_composer one_patch_lattice) = [0]"
    by (simp add: new_composer_def)
  have gs: "getSlices (new_composer one_patch_lattice) = [one_patch_lattice]"
    by (simp add: getSlices_def new_composer_def)
  have ev: "getSlices (snd (clearLattice (snd (initQubit (new_composer one_patch_lattice)))))
       = [clear one_patch_lattice, clear one_patch_lattice]"
    by (simp add: getSlices_def new_composer_def initQubit_def clearLattice_def)
  have ne: "clear one_patch_lattice \<noteq> one_patch_lattice"
    by (simp add: clear_def one_patch_lattice_def Lattice.defs)
  show ?thesis using initQubit_aliases_last_snapshot[OF ok] ok sl gs ev ne by simp
qed

section \<open>Routing on concrete lattices\<close>

text \<open>
  Claim C1 on the code. With the request \<open>{(0,0): X, (2,0): X, (4,0): X}\<close> on
  \<open>row_0_2_4\<close> the source is \<open>(0, 0)\<close>, vertex 2 of the search graph, and the free cell
  beyond its right border is \<open>(1, 0)\<close>, vertex 0. The claim has the edge \<open>(2, 0)\<close>, from
  the source outward; the code adds \<open>(0, 2)\<close>, into the source, as it does at a target:
  every activation edge ends at the vertex of its patch.
\<close>

theorem source_edge_is_added_inward:
  "ancilla_search_graph row_0_2_4 [((0, 0), X), ((2, 0), X), ((4, 0), X)]
     = Inr \<lparr>vs_name = [str (1, 0), str (3, 0), str (0, 0), str (2, 0), str (4, 0)],
            es = [(0, 2), (0, 3), (1, 3), (1, 4)]\<rparr>"
  by code_simp

text \<open>
  Claim C3 on the code. For the same request the only path from \<open>(0, 0)\<close> to \<open>(4, 0)\<close>
  in the graph searched with \<open>mode='all'\<close> runs through the vertex of the target patch
  \<open>(2, 0)\<close>, and the call returns normally with an Ancilla patch that holds the cell
  \<open>(2, 0)\<close>, which was not free.
\<close>

theorem ancilla_takes_cell_of_target_patch:
  "fst (compute_ancilla_cells row_0_2_4 [((0, 0), X), ((2, 0), X), ((4, 0), X)]) = None
   \<and> map patch_type (patches (snd (compute_ancilla_cells row_0_2_4 [((0, 0), X), ((2, 0), X), ((4, 0), X)])))
       = [Qubit, Qubit, Qubit, Ancilla]
   \<and> cells (last (patches (snd (compute_ancilla_cells row_0_2_4 [((0, 0), X), ((2, 0), X), ((4, 0), X)]))))
       = [(1, 0), (2, 0), (3, 0)]
   \<and> cellIsFree row_0_2_4 (2, 0) = False
   \<and> getPatchRepresentative row_0_2_4 (2, 0) = (2, 0)"
  by code_simp

text \<open>
  Claim C4 on the code. Two adjacent patches are joined by the path of their two vertices,
  whose interior is empty; the call returns normally and has appended an Ancilla patch
  without cells. A further call on that lattice raises IndexError, when
  \<open>add_directed_edges\<close> asks the empty patch for its representative.
\<close>

theorem empty_ancilla_patch_is_appended:
  "fst (compute_ancilla_cells adjacent_pair [((0, 0), X), ((1, 0), X)]) = None
   \<and> length (patches adjacent_pair) = 2
   \<and> length (patches (snd (compute_ancilla_cells adjacent_pair [((0, 0), X), ((1, 0), X)]))) = 3
   \<and> last (patches (snd (compute_ancilla_cells adjacent_pair [((0, 0), X), ((1, 0), X)])))
       = \<lparr>patch_type = Ancilla, state = None, cells = [], edges = [], patch_uuid = None\<rparr>
   \<and> fst (compute_ancilla_cells
            (snd (compute_ancilla_cells adjacent_pair [((0, 0), X), ((1, 0), X)]))
            [((0, 0), X), ((1, 0), X)]) = Some IndexError"
  by code_simp

text \<open>
  Claim C7, as stated, fails. In the scenario the Left and Right borders of \<open>(4, 0)\<close> stay
  Dashed and its Bottom border is the one stitched, and the Ancilla patch holds
  \<open>(4, 1)\<close>, a cell of row 1 in column 4.
\<close>

theorem scenario_A_stitches_bottom_of_4_0:
  "edges (patches (snd (compute_ancilla_cells scenario_A [((0, 0), X), ((4, 0), Z), ((6, 0), X)])) ! 1)
     = square_borders (4, 0) Solid SolidStiched Dashed Dashed
   \<and> (4, 1) \<in> set (cells (last (patches
          (snd (compute_ancilla_cells scenario_A [((0, 0), X), ((4, 0), Z), ((6, 0), X)])))))"
  by code_simp

text \<open>
  Claim C7, amended: on the lattice of three single-cell patches at \<open>(0,0)\<close>, \<open>(4,0)\<close>,
  \<open>(6,0)\<close> with minimum 2 rows (and minimum 0 columns), the request
  \<open>{(0,0): X, (4,0): Z, (6,0): X}\<close> succeeds: the three patches keep their kind and cells,
  one new patch is appended, of kind Ancilla and without borders, whose cells were all free
  before the call and include \<open>(1,0)\<close>, \<open>(4,1)\<close> and \<open>(5,0)\<close>; the Right border of
  \<open>(0,0)\<close>, the Bottom border of \<open>(4,0)\<close> and the Left border of \<open>(6,0)\<close> become
  stitched, and no other border changes.
\<close>

theorem scenario_A_routing:
  "fst (compute_ancilla_cells scenario_A [((0, 0), X), ((4, 0), Z), ((6, 0), X)]) = None
   \<and> map patch_type (patches (snd (compute_ancilla_cells scenario_A [((0, 0), X), ((4, 0), Z), ((6, 0), X)])))
       = [Qubit, Qubit, Qubit, Ancilla]
   \<and> map cells (take 3 (patches (snd (compute_ancilla_cells scenario_A [((0, 0), X), ((4, 0), Z), ((6, 0), X)]))))
       = [[(0, 0)], [(4, 0)], [(6, 0)]]
   \<and> map edges (patches (snd (compute_ancilla_cells scenario_A [((0, 0), X), ((4, 0), Z), ((6, 0), X)])))
       = [square_borders (0, 0) Solid Solid Dashed DashedStiched,
          square_borders (4, 0) Solid SolidStiched Dashed Dashed,
          square_borders (6, 0) Solid Solid DashedStiched Dashed,
          []]
   \<and> list_all (cellIsFree scenario_A)
        (cells (last (patches (snd (compute_ancilla_cells scenario_A [((0, 0), X), ((4, 0), Z), ((6, 0), X)])))))
   \<and> list_all (\<lambda>c. c \<in> set (cells (last (patches
          (snd (compute_ancilla_cells scenario_A [((0, 0), X), ((4, 0), Z), ((6, 0), X)]))))))
        [(1, 0), (4, 1), (5, 0)]"
  by code_simp

section \<open>Unreachable targets\<close>

lemma incident_all_iff: "w \<in> set (incident_all E v) \<longleftrightarrow> (v, w) \<in> set E \<or> (w, v) \<in> set E"
  by (induction E v rule: incident_all.induct) auto

lemma fresh_neighbours_incident:
  "w \<in> set (fresh_neighbours g seen v) \<Longrightarrow> (v, w) \<in> set (es g) \<or> (w, v) \<in> set (es g)"
  by (auto simp: fresh_neighbours_def incident_all_iff)

lemma bfs_sound:
  assumes "\<forall>(v, rp) \<in> set queue. connected (es g) s v"
      and "(v, rp) \<in> set (bfs g seen queue)"
  shows "connected (es g) s v"
  using assms
proof (induction g seen queue rule: bfs.induct)
  case (1 g seen)
  then show ?case by (simp add: bfs.simps(1))
next
  case (2 g seen u rq queue)
  let ?new = "fresh_neighbours g seen u"
  have cu: "connected (es g) s u" using "2.prems"(1) by auto
  have unfold: "bfs g seen ((u, rq) # queue)
        = (u, rq) # bfs g (seen @ ?new) (queue @ map (\<lambda>w. (w, u # rq)) ?new)"
    by (rule bfs.simps(2))
  show ?case
  proof (cases "(v, rp) = (u, rq)")
    case True
    then show ?thesis using cu by simp
  next
    case False
    have "(v, rp) \<in> set ((u, rq) # bfs g (seen @ ?new) (queue @ map (\<lambda>w. (w, u # rq)) ?new))"
      using "2.prems"(2) unfold by (simp only:)
    then have mem: "(v, rp) \<in> set (bfs g (seen @ ?new) (queue @ map (\<lambda>w. (w, u # rq)) ?new))"
      using False by auto
    have q: "\<forall>(v, rp) \<in> set (queue @ map (\<lambda>w. (w, u # rq)) ?new). connected (es g) s v"
    proof (clarify)
      fix a b assume "(a, b) \<in> set (queue @ map (\<lambda>w. (w, u # rq)) ?new)"
      then consider "(a, b) \<in> set queue" | "a \<in> set ?new" by auto
      then show "connected (es g) s a"
      proof cases
        case 1
        then show ?thesis using "2.prems"(1) by auto
      next
        case 2
        then show ?thesis using cu fresh_neighbours_incident connected.step by blast
      qed
    qed
    show ?thesis using "2.IH"[OF q mem] .
  qed
qed

lemma find_Some_member: "find P xs = Some a \<Longrightarrow> a \<in> set xs \<and> P a"
  by (induction xs) (auto split: if_splits)

lemma path_to_unreachable:
  assumes "\<not> connected (es g) s t"
  shows "path_to (bfs g [s] [(s, [])]) t = []"
proof (cases "find (\<lambda>(v, rp). v = t) (bfs g [s] [(s, [])])")
  case None
  then show ?thesis by (simp only: path_to_def option.case)
next
  case (Some a)
  obtain v rp where a: "a = (v, rp)" by (cases a)
  have "(v, rp) \<in> set (bfs g [s] [(s, [])])" and "v = t"
    using find_Some_member[OF Some] a by auto
  moreover have "\<forall>(v, rp) \<in> set [(s, [])]. connected (es g) s v"
    by (simp add: connected.here)
  ultimately have "connected (es g) s t" using bfs_sound by blast
  with assms show ?thesis by simp
qed

lemma resolve_all_nth:
  assumes "resolve_all names ts = Some ids" and "i < length ts"
  shows "length ids = length ts \<and> index_of (ts ! i) names = Some (ids ! i)"
  using assms
proof (induction ts arbitrary: ids i)
  case Nil
  then show ?case by simp
next
  case (Cons t ts)
  from Cons.prems(1) obtain j rest where
    j: "index_of t names = Some j" and r: "resolve_all names ts = Some rest" and ids: "ids = j # rest"
    by (auto split: option.splits)
  have len: "length rest = length ts"
  proof (cases ts)
    case Nil
    then show ?thesis using r by simp
  next
    case (Cons a list)
    then show ?thesis using Cons.IH[OF r, of 0] by simp
  qed
  show ?case
  proof (cases i)
    case 0
    then show ?thesis using j ids len by simp
  next
    case (Suc k)
    then show ?thesis using Cons.IH[OF r, of k] Cons.prems(2) ids by simp
  qed
qed

lemma get_shortest_paths_unreachable:
  assumes "get_shortest_paths g source targets = Inr raw"
      and "index_of source (vs_name g) = Some si"
      and "i < length targets"
      and "index_of (targets ! i) (vs_name g) = Some ti"
      and "\<not> connected (es g) si ti"
  shows "length raw = length targets \<and> raw ! i = []"
proof -
  from assms(1,2) obtain ids where
    ids: "resolve_all (vs_name g) targets = Some ids"
    and raw: "raw = map (path_to (bfs g [si] [(si, [])])) ids"
    by (auto simp: get_shortest_paths_def split: option.splits)
  have n: "length ids = length targets" and "index_of (targets ! i) (vs_name g) = Some (ids ! i)"
    using resolve_all_nth[OF ids assms(3)] by simp_all
  then have "ids ! i = ti" using assms(4) by simp
  then show ?thesis using raw n assms(3,5) path_to_unreachable by simp
qed

lemma stitched_from_refl: "stitched_from e e"
  by (simp add: stitched_from_def)

lemma stitched_type_idem: "stitched_type (stitched_type t) = stitched_type t"
  by (cases t) simp_all

lemma stitched_from_trans: "stitched_from a b \<Longrightarrow> stitched_from b c \<Longrightarrow> stitched_from a c"
  by (auto simp: stitched_from_def stitched_type_idem)

lemma patch_stitched_from_refl: "patch_stitched_from p p"
  by (simp add: patch_stitched_from_def list_all2_refl stitched_from_refl)

lemma patch_stitched_from_trans:
  assumes "patch_stitched_from a b" and "patch_stitched_from b c"
  shows "patch_stitched_from a c"
proof -
  have ab: "list_all2 stitched_from (edges a) (edges b)"
    and bc: "list_all2 stitched_from (edges b) (edges c)"
    using assms by (simp_all add: patch_stitched_from_def)
  have "list_all2 stitched_from (edges a) (edges c)"
    by (rule list_all2_trans[OF stitched_from_trans ab bc])
  then show ?thesis using assms by (simp add: patch_stitched_from_def)
qed

lemma lattice_stitched_from_refl: "lattice_stitched_from l l"
  by (simp add: lattice_stitched_from_def list_all2_refl patch_stitched_from_refl)

lemma lattice_stitched_from_trans:
  assumes "lattice_stitched_from a b" and "lattice_stitched_from b c"
  shows "lattice_stitched_from a c"
proof -
  have ab: "list_all2 patch_stitched_from (patches a) (patches b)"
    and bc: "list_all2 patch_stitched_from (patches b) (patches c)"
    using assms by (simp_all add: lattice_stitched_from_def)
  have "list_all2 patch_stitched_from (patches a) (patches c)"
    by (rule list_all2_trans[OF patch_stitched_from_trans ab bc])
  then show ?thesis using assms by (simp add: lattice_stitched_from_def)
qed

lemma stitch_facing_rel:
  assumes "stitch_facing edges0 k = Inr edges1"
  shows "list_all2 stitched_from edges0 edges1"
proof (cases k)
  case None
  with assms show ?thesis by (cases edges0) simp_all
next
  case (Some c)
  with assms have "edges1 = map (\<lambda>edge. if getNeighbouringCell edge = c
                        then edge\<lparr>border_type := stitched_type (border_type edge)\<rparr> else edge) edges0"
    by (cases edges0) auto
  then show ?thesis by (simp add: list_all2_conv_all_nth stitched_from_def)
qed

lemma update_patch_of_cell_rel:
  assumes "find (\<lambda>patch. c \<in> set (cells patch)) ps = Some sp"
      and "patch_stitched_from sp (f sp)"
  shows "list_all2 patch_stitched_from ps (update_patch_of_cell c f ps)"
  using assms
proof (induction ps)
  case Nil
  then show ?case by simp
next
  case (Cons p ps)
  show ?case
  proof (cases "c \<in> set (cells p)")
    case True
    then have "sp = p" using Cons.prems(1) by simp
    then show ?thesis using True Cons.prems(2)
      by (simp add: list_all2_refl patch_stitched_from_refl)
  next
    case False
    then show ?thesis using Cons by (simp add: patch_stitched_from_refl)
  qed
qed

lemma set_edges_rel:
  assumes "getPatchOfCell l c = Some sp" and "list_all2 stitched_from (edges sp) edges1"
  shows "lattice_stitched_from l
           (l\<lparr>patches := update_patch_of_cell c (\<lambda>p. p\<lparr>edges := edges1\<rparr>) (patches l)\<rparr>)"
proof -
  have "patch_stitched_from sp (sp\<lparr>edges := edges1\<rparr>)"
    using assms(2) by (simp add: patch_stitched_from_def)
  then have "list_all2 patch_stitched_from (patches l)
               (update_patch_of_cell c (\<lambda>p. p\<lparr>edges := edges1\<rparr>) (patches l))"
    using assms(1) update_patch_of_cell_rel[of c "patches l" sp "\<lambda>p. p\<lparr>edges := edges1\<rparr>"]
    by (simp add: getPatchOfCell_def)
  then show ?thesis by (simp add: lattice_stitched_from_def)
qed

lemma stitch_path_rel: "lattice_stitched_from l (snd (stitch_path l path))"
proof (cases path)
  case Nil
  then show ?thesis by (simp add: stitch_path_def lattice_stitched_from_refl)
next
  case (Cons c0 rest)
  show ?thesis
  proof (cases "getPatchOfCell l c0")
    case None
    then show ?thesis using Cons by (simp add: stitch_path_def lattice_stitched_from_refl)
  next
    case (Some source_patch)
    show ?thesis
    proof (cases "stitch_facing (edges source_patch) (py_index1 path)")
      case (Inl e)
      then show ?thesis using Cons Some by (simp add: stitch_path_def lattice_stitched_from_refl)
    next
      case (Inr es1)
      define l1 where "l1 = l\<lparr>patches := update_patch_of_cell c0 (\<lambda>p. p\<lparr>edges := es1\<rparr>) (patches l)\<rparr>"
      have r1: "lattice_stitched_from l l1"
        unfolding l1_def using set_edges_rel[OF Some stitch_facing_rel[OF Inr]] .
      have sp: "stitch_path l path =
          (case getPatchOfCell l1 (last path) of
             None \<Rightarrow> (Some AttributeError, l1)
           | Some target_patch \<Rightarrow>
               (case stitch_facing (edges target_patch) (py_index_minus2 path) of
                  Inl e \<Rightarrow> (Some e, l1)
                | Inr es2 \<Rightarrow>
                    (None, l1\<lparr>patches := update_patch_of_cell (last path)
                                           (\<lambda>p. p\<lparr>edges := es2\<rparr>) (patches l1)\<rparr>)))"
        unfolding stitch_path_def l1_def Cons
        using Some Inr[unfolded Cons] by (simp only: list.case option.case sum.case Let_def)
      show ?thesis
      proof (cases "getPatchOfCell l1 (last path)")
        case None
        then show ?thesis using sp r1 by simp
      next
        case target: (Some target_patch)
        show ?thesis
        proof (cases "stitch_facing (edges target_patch) (py_index_minus2 path)")
          case (Inl e)
          then show ?thesis using sp target r1 by simp
        next
          case es2: (Inr es2)
          have "lattice_stitched_from l1
                  (l1\<lparr>patches := update_patch_of_cell (last path) (\<lambda>p. p\<lparr>edges := es2\<rparr>) (patches l1)\<rparr>)"
            using set_edges_rel[OF target stitch_facing_rel[OF es2]] .
          then have "lattice_stitched_from l
                  (l1\<lparr>patches := update_patch_of_cell (last path) (\<lambda>p. p\<lparr>edges := es2\<rparr>) (patches l1)\<rparr>)"
            using r1 lattice_stitched_from_trans by blast
          then show ?thesis using sp target es2 by simp
        qed
      qed
    qed
  qed
qed

lemma stitch_paths_rel: "lattice_stitched_from l (fst (snd (stitch_paths l paths acc)))"
proof (induction paths arbitrary: l acc)
  case Nil
  then show ?case by (simp add: lattice_stitched_from_refl)
next
  case (Cons path paths)
  obtain r l' where sp: "stitch_path l path = (r, l')" by (cases "stitch_path l path")
  have r1: "lattice_stitched_from l l'" using stitch_path_rel[of l path] sp by simp
  show ?case
  proof (cases r)
    case None
    have "lattice_stitched_from l' (fst (snd (stitch_paths l' paths (py_set_union acc (interior path)))))"
      by (rule Cons.IH)
    then have "lattice_stitched_from l (fst (snd (stitch_paths l' paths (py_set_union acc (interior path)))))"
      using r1 lattice_stitched_from_trans by blast
    then show ?thesis using sp None by simp
  next
    case (Some e)
    then show ?thesis using sp r1 by simp
  qed
qed

lemma stitch_path_empty: "stitch_path l [] = (Some IndexError, l)"
  by (simp add: stitch_path_def)

lemma stitch_paths_empty_path:
  "[] \<in> set paths \<Longrightarrow> fst (stitch_paths l paths acc) \<noteq> None"
proof (induction paths arbitrary: l acc)
  case Nil
  then show ?case by simp
next
  case (Cons path paths)
  obtain r l' where sp: "stitch_path l path = (r, l')" by (cases "stitch_path l path")
  show ?case
  proof (cases r)
    case None
    then have "path \<noteq> []" using sp stitch_path_empty[of l] by auto
    then have "[] \<in> set paths" using Cons.prems by auto
    then have "fst (stitch_paths l' paths (py_set_union acc (interior path))) \<noteq> None"
      by (rule Cons.IH)
    then show ?thesis using sp None by simp
  next
    case (Some e)
    then show ?thesis using sp by simp
  qed
qed

lemma add_ancilla_empty_path:
  assumes "[] \<in> set paths"
  shows "fst (add_ancilla_to_lattice_from_paths l paths) \<noteq> None
       \<and> lattice_stitched_from l (snd (add_ancilla_to_lattice_from_paths l paths))"
proof -
  obtain r l' acc where sp: "stitch_paths l paths [] = (r, l', acc)"
    by (cases "stitch_paths l paths []") auto
  have "r \<noteq> None" using stitch_paths_empty_path[OF assms, of l "[]"] sp by simp
  then obtain e where "r = Some e" by auto
  moreover have "lattice_stitched_from l l'" using stitch_paths_rel[of l paths "[]"] sp by simp
  ultimately show ?thesis using sp by (simp add: add_ancilla_to_lattice_from_paths_def)
qed

lemma add_ancilla_first_path_empty:
  "add_ancilla_to_lattice_from_paths l ([] # paths) = (Some IndexError, l)"
  by (simp add: add_ancilla_to_lattice_from_paths_def stitch_path_def)

lemma connected_needs_edge:
  "connected E s t \<Longrightarrow> t = s \<or> t \<in> fst ` set E \<union> snd ` set E"
  by (induction rule: connected.induct) force+

text \<open>
  The request \<open>{(0,0): X, (2,0): X, (4,0): Z}\<close> on \<open>row_0_2_4\<close>: the Solid borders of
  \<open>(4, 0)\<close> face rows \<open>-1\<close> and 1, outside the grid of one row, so its vertex, 4, has no
  edge.
\<close>

lemma row_0_2_4_XXZ_graph:
  "ancilla_search_graph row_0_2_4 [((0, 0), X), ((2, 0), X), ((4, 0), Z)]
     = Inr \<lparr>vs_name = [str (1, 0), str (3, 0), str (0, 0), str (2, 0), str (4, 0)],
            es = [(0, 2), (0, 3), (1, 3)]\<rparr>"
  by code_simp

lemma row_0_2_4_XXZ_unreachable: "\<not> connected [(0, 2), (0, 3), (1, 3)] 2 4"
proof
  assume "connected [(0, 2), (0, 3), (1, 3)] 2 4"
  from connected_needs_edge[OF this] show False by simp
qed

text \<open>
  Claim C2, as stated, fails. For that request no path leads from the source \<open>(0, 0)\<close>,
  vertex 2, to the target \<open>(4, 0)\<close>, vertex 4, which has no edge at all. The call raises
  IndexError, but only after the path to the first target \<open>(2, 0)\<close> has been processed:
  the Right border of \<open>(0, 0)\<close> and the Left border of \<open>(2, 0)\<close> are left stitched.
\<close>

theorem unreachable_target_leaves_stitched_borders:
  "ancilla_search_graph row_0_2_4 [((0, 0), X), ((2, 0), X), ((4, 0), Z)]
     = Inr \<lparr>vs_name = [str (1, 0), str (3, 0), str (0, 0), str (2, 0), str (4, 0)],
            es = [(0, 2), (0, 3), (1, 3)]\<rparr>
   \<and> \<not> connected [(0, 2), (0, 3), (1, 3)] 2 4
   \<and> incident_all [(0, 2), (0, 3), (1, 3)] 4 = []
   \<and> fst (compute_ancilla_cells row_0_2_4 [((0, 0), X), ((2, 0), X), ((4, 0), Z)]) = Some IndexError
   \<and> map edges (patches row_0_2_4)
       = [square_borders (0, 0) Solid Solid Dashed Dashed,
          square_borders (2, 0) Solid Solid Dashed Dashed,
          square_borders (4, 0) Solid Solid Dashed Dashed]
   \<and> map edges (patches (snd (compute_ancilla_cells row_0_2_4 [((0, 0), X), ((2, 0), X), ((4, 0), Z)])))
       = [square_borders (0, 0) Solid Solid Dashed DashedStiched,
          square_borders (2, 0) Solid Solid DashedStiched Dashed,
          square_borders (4, 0) Solid Solid Dashed Dashed]
   \<and> snd (compute_ancilla_cells row_0_2_4 [((0, 0), X), ((2, 0), X), ((4, 0), Z)]) \<noteq> row_0_2_4"
proof -
  have ev: "fst (compute_ancilla_cells row_0_2_4 [((0, 0), X), ((2, 0), X), ((4, 0), Z)]) = Some IndexError
    \<and> map edges (patches row_0_2_4)
       = [square_borders (0, 0) Solid Solid Dashed Dashed,
          square_borders (2, 0) Solid Solid Dashed Dashed,
          square_borders (4, 0) Solid Solid Dashed Dashed]
    \<and> map edges (patches (snd (compute_ancilla_cells row_0_2_4 [((0, 0), X), ((2, 0), X), ((4, 0), Z)])))
       = [square_borders (0, 0) Solid Solid Dashed DashedStiched,
          square_borders (2, 0) Solid Solid DashedStiched Dashed,
          square_borders (4, 0) Solid Solid Dashed Dashed]"
    by code_simp
  have "square_borders (0, 0) Solid Solid Dashed DashedStiched \<noteq> square_borders (0, 0) Solid Solid Dashed Dashed"
    by (simp add: square_borders_def)
  then have "snd (compute_ancilla_cells row_0_2_4 [((0, 0), X), ((2, 0), X), ((4, 0), Z)]) \<noteq> row_0_2_4"
    using ev by auto
  then show ?thesis using ev row_0_2_4_XXZ_graph row_0_2_4_XXZ_unreachable by simp
qed

text \<open>
  Claim C2, amended: whenever the search graph is built and some target has no path from
  the source in it, edges followed in either direction as the search follows them,
  \<open>compute_ancilla_cells\<close> raises (a built-in error such as the IndexError of \<open>path[0]\<close>
  on the empty path the search returns, not an error of its own kind) and appends no
  patch: the lattice keeps its patches with their kind, cells and borders, except that
  borders may have been given their stitched type while the paths to earlier targets were
  processed. When the unreachable target is the first target the lattice is unchanged.
\<close>

theorem unreachable_target_raises:
  assumes "ancilla_search_graph l m = Inr g"
      and "map fst m = source # targets"
      and "i < length targets"
      and "index_of (str source) (vs_name g) = Some si"
      and "index_of (str (targets ! i)) (vs_name g) = Some ti"
      and "\<not> connected (es g) si ti"
  shows "fst (compute_ancilla_cells l m) \<noteq> None
       \<and> lattice_stitched_from l (snd (compute_ancilla_cells l m))
       \<and> (i = 0 \<longrightarrow> snd (compute_ancilla_cells l m) = l)"
proof (cases "get_shortest_paths g (str source) (map str targets)")
  case (Inl e)
  then have "compute_ancilla_cells l m = (Some e, l)"
    using assms(1,2) by (simp add: compute_ancilla_cells_def)
  then show ?thesis by (simp add: lattice_stitched_from_refl)
next
  case (Inr raw)
  let ?paths = "map (map (\<lambda>v_idx. make_tuple (vs_name g ! v_idx))) raw"
  have c: "compute_ancilla_cells l m = add_ancilla_to_lattice_from_paths l ?paths"
    using assms(1,2) Inr by (simp add: compute_ancilla_cells_def)
  have "length raw = length (map str targets) \<and> raw ! i = []"
    using get_shortest_paths_unreachable[OF Inr assms(4), of i ti] assms(3,5,6) by simp
  then have len: "i < length raw" and nil: "raw ! i = []" using assms(3) by simp_all
  then have "?paths ! i = []" by simp
  then have mem: "[] \<in> set ?paths" using len by (metis length_map nth_mem)
  have first: "snd (compute_ancilla_cells l m) = l" if "i = 0"
  proof -
    obtain p ps where raw: "raw = p # ps" using len by (cases raw) auto
    then have "p = []" using nil that by simp
    then show ?thesis using c raw by (simp add: add_ancilla_first_path_empty)
  qed
  show ?thesis using add_ancilla_empty_path[OF mem, of l] c first by simp
qed

theorem unreachable_target_raises_witness:
  "ancilla_search_graph row_0_2_4 [((0, 0), X), ((2, 0), X), ((4, 0), Z)]
     = Inr \<lparr>vs_name = [str (1, 0), str (3, 0), str (0, 0), str (2, 0), str (4, 0)],
            es = [(0, 2), (0, 3), (1, 3)]\<rparr>
   \<and> \<not> connected [(0, 2), (0, 3), (1, 3)] 2 4
   \<and> fst (compute_ancilla_cells row_0_2_4 [((0, 0), X), ((2, 0), X), ((4, 0), Z)]) \<noteq> None
   \<and> lattice_stitched_from row_0_2_4
        (snd (compute_ancilla_cells row_0_2_4 [((0, 0), X), ((2, 0), X), ((4, 0), Z)]))"
proof -
  let ?g = "\<lparr>vs_name = [str (1, 0), str (3, 0), str (0, 0), str (2, 0), str (4, 0)],
            es = [(0, 2), (0, 3), (1, 3)]\<rparr>"
  have keys: "map fst [((0::int, 0::int), X), ((2, 0), X), ((4, 0), Z)] = (0, 0) # [(2, 0), (4, 0)]"
    by simp
  have i: "(1::nat) < length [(2::int, 0::int), (4, 0)]" by simp
  have si: "index_of (str (0, 0)) (vs_name ?g) = Some 2" by simp
  have ti: "index_of (str ([(2, 0), (4, 0)] ! 1)) (vs_name ?g) = Some 4" by simp
  have nc: "\<not> connected (es ?g) 2 4" using row_0_2_4_XXZ_unreachable by simp
  show ?thesis
    using unreachable_target_raises[OF row_0_2_4_XXZ_graph keys i si ti nc]
      row_0_2_4_XXZ_graph row_0_2_4_XXZ_unreachable by simp
qed

end
